theory Spec2Isabelle
  imports Main
begin

section \<open>Shared wire model (packages rotator and hub)\<close>

text \<open>
  The structs \<open>rotator.Status\<close>, \<open>rotator.Info\<close>, \<open>rotator.Request\<close> and \<open>hub.Event\<close> are
  declared outside the two source files; the records below carry exactly the fields that
  the source reads or writes (\<open>Proxy.Status\<close>, \<open>Proxy.Info\<close>, \<open>getInfo\<close>, the command
  methods and the receive loop). Go's \<open>int\<close> fields are modelled as \<open>int\<close>: the code only
  copies, compares and prints them, it never does arithmetic on them.
\<close>

type_synonym error = string

record status =
  status_Name :: string
  status_Azimuth :: int
  status_AzPreset :: int
  status_AzimuthOverlap :: bool
  status_Elevation :: int
  status_ElPreset :: int

record info =
  info_Name :: string
  info_HasAzimuth :: bool
  info_HasElevation :: bool
  info_AzimuthMin :: int
  info_AzimuthMax :: int
  info_AzimuthStop :: int
  info_AzimuthOverlap :: bool
  info_ElevationMin :: int
  info_ElevationMax :: int
  info_Azimuth :: int
  info_AzPreset :: int
  info_Elevation :: int
  info_ElPreset :: int

record request =
  req_HasAzimuth :: bool
  req_Azimuth :: int
  req_HasElevation :: bool
  req_Elevation :: int
  req_StopAzimuth :: bool
  req_StopElevation :: bool
  req_Stop :: bool

text \<open>The zero value of \<open>rotator.Request\<close>: a composite literal leaves unnamed fields at it.\<close>

definition request_zero :: request where
  "request_zero = \<lparr>req_HasAzimuth = False, req_Azimuth = 0, req_HasElevation = False,
     req_Elevation = 0, req_StopAzimuth = False, req_StopElevation = False, req_Stop = False\<rparr>"

record event =
  event_Name :: string
  event_Status :: status

text \<open>The two event kinds \<open>rotator.Azimuth\<close> and \<open>rotator.Elevation\<close> handed to a handler.\<close>

datatype rotator_event = Azimuth_Event | Elevation_Event

text \<open>A call either returns or ends in a run-time panic.\<close>

datatype 'a outcome = Return 'a | Panic string

section \<open>Formatting verbs of \<open>fmt.Sprintf\<close>\<close>

definition digit :: "nat \<Rightarrow> char" where
  "digit d = ''0123456789'' ! d"

fun fmt_nat :: "nat \<Rightarrow> string" where
  "fmt_nat n = (if n < 10 then [digit n] else fmt_nat (n div 10) @ [digit (n mod 10)])"

declare fmt_nat.simps [simp del]

text \<open>
  \<open>%.Nd\<close>: the decimal digits of the magnitude, padded on the left with zeros to at least
  \<open>N\<close> digits, behind a minus sign for a negative value. \<open>%d\<close> is the same without padding.
\<close>

definition fmt_d_prec :: "nat \<Rightarrow> int \<Rightarrow> string" where
  "fmt_d_prec p i =
     (let ds = fmt_nat (nat \<bar>i\<bar>)
      in (if i < 0 then ''-'' else []) @ replicate (p - length ds) (CHR ''0'') @ ds)"

definition fmt_d :: "int \<Rightarrow> string" where
  "fmt_d i = (if i < 0 then ''-'' else []) @ fmt_nat (nat \<bar>i\<bar>)"

definition CRLF :: string where
  "CRLF = [CHR 0x0D, CHR 0x0A]"

text \<open>\<open>fmt.Sprintf("+0%.3d+0%.3d\r\n", s.Azimuth, s.Elevation)\<close> of \<open>BroadcastToTCPClients\<close>.\<close>

definition tcp_data :: "status \<Rightarrow> string" where
  "tcp_data s =
     ''+0'' @ fmt_d_prec 3 (status_Azimuth s) @ ''+0'' @ fmt_d_prec 3 (status_Elevation s) @ CRLF"

section \<open>Proxy\<close>

type_synonym conn = nat
type_synonym handler = nat

record proxy =
  host :: string
  port :: int
  conn :: "conn option"
  eventHandler :: "handler option"
  name :: string
  azimuthMin :: int
  azimuthMax :: int
  azimuthStop :: int
  azimuthOverlap :: bool
  elevationMin :: int
  elevationMax :: int
  hasAzimuth :: bool
  hasElevation :: bool
  azimuth :: int
  azPreset :: int
  elevation :: int
  elPreset :: int

subsection \<open>Read accessors\<close>

definition Name :: "proxy \<Rightarrow> string" where
  "Name r = name r"

definition HasAzimuth :: "proxy \<Rightarrow> bool" where
  "HasAzimuth r = hasAzimuth r"

definition HasElevation :: "proxy \<Rightarrow> bool" where
  "HasElevation r = hasElevation r"

definition Azimuth :: "proxy \<Rightarrow> int" where
  "Azimuth r = azimuth r"

definition AzPreset :: "proxy \<Rightarrow> int" where
  "AzPreset r = azPreset r"

definition Elevation :: "proxy \<Rightarrow> int" where
  "Elevation r = elevation r"

definition ElPreset :: "proxy \<Rightarrow> int" where
  "ElPreset r = elPreset r"

definition Status :: "proxy \<Rightarrow> status" where
  "Status r = \<lparr>status_Name = name r, status_Azimuth = azimuth r, status_AzPreset = azPreset r,
     status_AzimuthOverlap = azimuthOverlap r, status_Elevation = elevation r,
     status_ElPreset = elPreset r\<rparr>"

definition Info :: "proxy \<Rightarrow> info" where
  "Info r = \<lparr>info_Name = name r, info_HasAzimuth = hasAzimuth r,
     info_HasElevation = hasElevation r, info_AzimuthMin = azimuthMin r,
     info_AzimuthMax = azimuthMax r, info_AzimuthStop = azimuthStop r,
     info_AzimuthOverlap = azimuthOverlap r, info_ElevationMin = elevationMin r,
     info_ElevationMax = elevationMax r, info_Azimuth = azimuth r, info_AzPreset = azPreset r,
     info_Elevation = elevation r, info_ElPreset = elPreset r\<rparr>"

subsection \<open>Construction\<close>

text \<open>
  The functional options \<open>Host\<close>, \<open>Port\<close> and \<open>EventHandler\<close>. The fields of \<open>Proxy\<close> are
  unexported, so these three are the only options a caller outside the package can build.
  A handler is a function value; it is modelled by an identifier, \<open>None\<close> being \<open>nil\<close>.
\<close>

datatype proxy_option = Host string | Port int | EventHandler "handler option"

fun apply_option :: "proxy_option \<Rightarrow> proxy \<Rightarrow> proxy" where
  "apply_option (Host h) r = r\<lparr>host := h\<rparr>"
| "apply_option (Port p) r = r\<lparr>port := p\<rparr>"
| "apply_option (EventHandler h) r = r\<lparr>eventHandler := h\<rparr>"

text \<open>\<open>&Proxy{name: "rotatorProxy"}\<close>: every other field at its zero value.\<close>

definition proxy_literal :: proxy where
  "proxy_literal = \<lparr>host = [], port = 0, conn = None, eventHandler = None,
     name = ''rotatorProxy'', azimuthMin = 0, azimuthMax = 0, azimuthStop = 0,
     azimuthOverlap = False, elevationMin = 0, elevationMax = 0, hasAzimuth = False,
     hasElevation = False, azimuth = 0, azPreset = 0, elevation = 0, elPreset = 0\<rparr>"

text \<open>
  The network as \<open>New\<close> sees it: the outcome of the HTTP GET (an error or the response
  body), what \<open>json.Decoder.Decode\<close> makes of a body (an error or the decoded slice of
  \<open>rotator.Info\<close>), and the outcome of the WebSocket dial. Each network call that is made
  is recorded, in program order.
\<close>

record env =
  http_get :: "string \<Rightarrow> error + string"
  decode_infos :: "string \<Rightarrow> error + info list"
  ws_dial :: "string \<Rightarrow> error + conn"

datatype net_action = HTTP_Get string | WS_Dial string

definition getInfo ::
  "env \<Rightarrow> proxy \<Rightarrow> (error option \<times> proxy) outcome \<times> net_action list" where
  "getInfo e r =
     (let infoURL = ''http://'' @ host r @ '':'' @ fmt_d (port r) @ ''/info'' in
      ((case http_get e infoURL of
         Inl err \<Rightarrow> Return (Some err, r)
       | Inr body \<Rightarrow>
           (case decode_infos e body of
              Inl err \<Rightarrow> Return (Some err, r)
            | Inr infos \<Rightarrow>
                if length infos > 1
                then Return (Some (''expected information of 1 rotator, but got ''
                                     @ fmt_d (int (length infos))), r)
                else (case infos of
                        [] \<Rightarrow> Panic ''runtime error: index out of range''
                      | i0 # _ \<Rightarrow>
                          Return (None,
                            r\<lparr>name := info_Name i0,
                              hasAzimuth := info_HasAzimuth i0,
                              hasElevation := info_HasElevation i0,
                              azimuthMin := info_AzimuthMin i0,
                              azimuthMax := info_AzimuthMax i0,
                              azimuthStop := info_AzimuthStop i0,
                              elevationMin := info_ElevationMin i0,
                              elevationMax := info_ElevationMax i0,
                              azimuth := info_Azimuth i0,
                              azPreset := info_AzPreset i0,
                              elevation := info_Elevation i0,
                              elPreset := info_ElPreset i0\<rparr>)))),
       [HTTP_Get infoURL]))"

text \<open>
  \<open>New\<close> up to the point where it starts the receive loop and returns: \<open>Inl\<close> is the
  pair \<open>(nil, err)\<close>, \<open>Inr\<close> the pair \<open>(r, nil)\<close>.
\<close>

definition New :: "env \<Rightarrow> proxy_option list \<Rightarrow> (error + proxy) outcome \<times> net_action list" where
  "New e opts =
     (let r = foldl (\<lambda>r opt. apply_option opt r) proxy_literal opts in
      (case getInfo e r of
         (Panic m, tr) \<Rightarrow> (Panic m, tr)
       | (Return (Some err, r1), tr) \<Rightarrow> (Return (Inl err), tr)
       | (Return (None, r1), tr) \<Rightarrow>
           (let wsURL = ''ws://'' @ host r1 @ '':'' @ fmt_d (port r1) @ ''/ws'' in
            (case ws_dial e wsURL of
               Inl err \<Rightarrow> (Return (Inl err), tr @ [WS_Dial wsURL])
             | Inr c \<Rightarrow> (Return (Inr (r1\<lparr>conn := Some c\<rparr>)), tr @ [WS_Dial wsURL])))))"

subsection \<open>Receive loop\<close>

text \<open>
  A handler call started with \<open>go\<close>: the handler, the event kind and the status handed
  over. The calls are listed in the order in which the loop starts them.
\<close>

type_synonym handler_call = "handler \<times> rotator_event \<times> status"

definition notify :: "proxy \<Rightarrow> rotator_event \<Rightarrow> status \<Rightarrow> handler_call list" where
  "notify r ev s = (case eventHandler r of None \<Rightarrow> [] | Some h \<Rightarrow> [(h, ev, s)])"

text \<open>The \<open>"heading"\<close> case: four comparisons in sequence, each against the cache.\<close>

definition on_heading :: "status \<Rightarrow> proxy \<Rightarrow> proxy \<times> handler_call list" where
  "on_heading s r0 =
     (let (r1, c1) = (if azimuth r0 \<noteq> status_Azimuth s
                      then (let r = r0\<lparr>azimuth := status_Azimuth s\<rparr>
                            in (r, notify r Azimuth_Event s))
                      else (r0, []));
          (r2, c2) = (if azPreset r1 \<noteq> status_AzPreset s
                      then (let r = r1\<lparr>azPreset := status_AzPreset s\<rparr>
                            in (r, notify r Azimuth_Event s))
                      else (r1, []));
          (r3, c3) = (if elevation r2 \<noteq> status_Elevation s
                      then (let r = r2\<lparr>elevation := status_Elevation s\<rparr>
                            in (r, notify r Elevation_Event s))
                      else (r2, []));
          (r4, c4) = (if elPreset r3 \<noteq> status_ElPreset s
                      then (let r = r3\<lparr>elPreset := status_ElPreset s\<rparr>
                            in (r, notify r Elevation_Event s))
                      else (r3, []))
      in (r4, c1 @ c2 @ c3 @ c4))"

text \<open>The \<open>switch data.Name\<close> of the loop body.\<close>

definition on_event :: "event \<Rightarrow> proxy \<Rightarrow> proxy \<times> handler_call list" where
  "on_event data r =
     (if event_Name data = ''add'' then (r, [])
      else if event_Name data = ''remove'' then (r, [])
      else if event_Name data = ''heading'' then on_heading (event_Status data) r
      else (r, []))"

text \<open>
  The loop over the frames read so far. A read is either an error or the value of
  \<open>data\<close> after \<open>json.Unmarshal\<close> (a failed unmarshal is only logged, the switch still
  runs on what was decoded). The third component tells whether \<open>done\<close> has been closed:
  the loop returns at the first read error; with no frame left it is blocked in
  \<open>ReadMessage\<close>.
\<close>

fun receive_loop :: "(error + event) list \<Rightarrow> proxy \<Rightarrow> proxy \<times> handler_call list \<times> bool" where
  "receive_loop [] r = (r, [], False)"
| "receive_loop (Inl err # rest) r = (r, [], True)"
| "receive_loop (Inr data # rest) r =
     (let (r1, cs) = on_event data r;
          (r2, cs', d) = receive_loop rest r1
      in (r2, cs @ cs', d))"

text \<open>How many of the started handler calls carry a given event kind.\<close>

definition axis_calls :: "rotator_event \<Rightarrow> handler_call list \<Rightarrow> nat" where
  "axis_calls ev cs = length (filter (\<lambda>c. fst (snd c) = ev) cs)"

subsection \<open>Commands\<close>

text \<open>
  \<open>r.conn.WriteJSON(req)\<close>: the outcome of the write is the connection's (parameter
  \<open>w\<close>); what is written is recorded. A Proxy that \<open>New\<close> returned has a connection; on a
  \<open>nil\<close> connection the call dereferences a nil pointer.
\<close>

datatype wire_action = Sent conn request

type_synonym writer = "conn \<Rightarrow> request \<Rightarrow> error option"

definition WriteJSON ::
  "writer \<Rightarrow> proxy \<Rightarrow> request \<Rightarrow> (error option \<times> proxy \<times> wire_action list) outcome" where
  "WriteJSON w r req =
     (case conn r of
        None \<Rightarrow> Panic ''runtime error: invalid memory address or nil pointer dereference''
      | Some c \<Rightarrow> Return (w c req, r, [Sent c req]))"

definition SetAzimuth ::
  "int \<Rightarrow> writer \<Rightarrow> proxy \<Rightarrow> (error option \<times> proxy \<times> wire_action list) outcome" where
  "SetAzimuth az w r =
     (let req = request_zero\<lparr>req_HasAzimuth := True, req_Azimuth := az\<rparr> in WriteJSON w r req)"

definition SetElevation ::
  "int \<Rightarrow> writer \<Rightarrow> proxy \<Rightarrow> (error option \<times> proxy \<times> wire_action list) outcome" where
  "SetElevation el w r =
     (let req = request_zero\<lparr>req_HasElevation := True, req_Elevation := el\<rparr>
      in WriteJSON w r req)"

definition StopAzimuth ::
  "writer \<Rightarrow> proxy \<Rightarrow> (error option \<times> proxy \<times> wire_action list) outcome" where
  "StopAzimuth w r = (let req = request_zero\<lparr>req_StopAzimuth := True\<rparr> in WriteJSON w r req)"

definition StopElevation ::
  "writer \<Rightarrow> proxy \<Rightarrow> (error option \<times> proxy \<times> wire_action list) outcome" where
  "StopElevation w r =
     (let req = request_zero\<lparr>req_StopElevation := True\<rparr> in WriteJSON w r req)"

definition Stop ::
  "writer \<Rightarrow> proxy \<Rightarrow> (error option \<times> proxy \<times> wire_action list) outcome" where
  "Stop w r = (let req = request_zero\<lparr>req_Stop := True\<rparr> in WriteJSON w r req)"

definition ExecuteRequest ::
  "request \<Rightarrow> writer \<Rightarrow> proxy \<Rightarrow> (error option \<times> proxy \<times> wire_action list) outcome" where
  "ExecuteRequest req w r = WriteJSON w r req"

section \<open>Hub\<close>

text \<open>
  A client is a pointer (\<open>*TCPClient\<close>, \<open>*WsClient\<close>), modelled by its address. The two
  client sets are Go maps from client pointers to \<open>bool\<close>. The channels
  \<open>closeTCPClient\<close>, \<open>closeWsClient\<close> and the rotator are only handed on to the clients'
  listen loops, which live outside the source file; they are not part of the state here.

  Everything an operation does besides changing the maps is recorded, in program order:
  taking and releasing the Hub's mutex, the map writes, the writes to and the closing of
  client connections, the goroutines started, the log lines, and the closing of a
  listener or of an error channel.
\<close>

type_synonym client = nat

datatype transport = TCP | WS

datatype logline =
    Connected transport client
  | Disconnected transport client
  | Write_error transport client error
  | Disconnecting transport client
  | Listener_error error
  | Listening transport string
  | Accept_error error
  | Upgrade_error error
  | Serve_error error
  | Broadcast_error error

datatype hub_action =
    Lock
  | Unlock
  | Map_delete transport client
  | Map_insert transport client
  | Conn_write transport client string "error option"
  | Conn_close transport client
  | Go_listen transport client
  | Log logline
  | Listener_close
  | Chan_close

record hub =
  tcpClients :: "client \<rightharpoonup> bool"
  wsClients :: "client \<rightharpoonup> bool"

definition NewHub :: hub where
  "NewHub = \<lparr>tcpClients = Map.empty, wsClients = Map.empty\<rparr>"

subsection \<open>Adding and removing clients\<close>

definition AddTCPClient :: "client \<Rightarrow> hub \<Rightarrow> hub \<times> hub_action list" where
  "AddTCPClient c h =
     (let (h1, t1) = (if tcpClients h c \<noteq> None
                      then (h\<lparr>tcpClients := (tcpClients h)(c := None)\<rparr>, [Map_delete TCP c])
                      else (h, []));
          h2 = h1\<lparr>tcpClients := (tcpClients h1)(c \<mapsto> True)\<rparr>
      in (h2, [Lock] @ t1 @ [Map_insert TCP c, Log (Connected TCP c), Go_listen TCP c, Unlock]))"

definition RemoveTCPClient :: "client \<Rightarrow> hub \<Rightarrow> hub \<times> hub_action list" where
  "RemoveTCPClient c h =
     (let (h1, t1) = (if tcpClients h c \<noteq> None
                      then (h\<lparr>tcpClients := (tcpClients h)(c := None)\<rparr>, [Map_delete TCP c])
                      else (h, []))
      in (h1, [Lock] @ t1 @ [Conn_close TCP c, Log (Disconnected TCP c), Unlock]))"

definition AddWsClient :: "client \<Rightarrow> hub \<Rightarrow> hub \<times> hub_action list" where
  "AddWsClient c h =
     (let (h1, t1) = (if wsClients h c \<noteq> None
                      then (h\<lparr>wsClients := (wsClients h)(c := None)\<rparr>, [Map_delete WS c])
                      else (h, []));
          h2 = h1\<lparr>wsClients := (wsClients h1)(c \<mapsto> True)\<rparr>
      in (h2, t1 @ [Map_insert WS c, Log (Connected WS c), Go_listen WS c]))"

definition RemoveWsClient :: "client \<Rightarrow> hub \<Rightarrow> hub \<times> hub_action list" where
  "RemoveWsClient c h =
     (let (h1, t1) = (if wsClients h c \<noteq> None
                      then (h\<lparr>wsClients := (wsClients h)(c := None)\<rparr>, [Map_delete WS c])
                      else (h, []))
      in (h1, [Lock] @ t1 @ [Conn_close WS c, Log (Disconnected WS c), Unlock]))"

text \<open>\<open>handleClose\<close>, over the clients received on the two close channels so far.\<close>

fun handleClose :: "(transport \<times> client) list \<Rightarrow> hub \<Rightarrow> hub \<times> hub_action list" where
  "handleClose [] h = (h, [])"
| "handleClose ((TCP, c) # ms) h =
     (let (h1, t1) = RemoveTCPClient c h; (h2, t2) = handleClose ms h1 in (h2, t1 @ t2))"
| "handleClose ((WS, c) # ms) h =
     (let (h1, t1) = RemoveWsClient c h; (h2, t2) = handleClose ms h1 in (h2, t1 @ t2))"

text \<open>A sequence of registrations, as the listeners make them one after the other.\<close>

datatype add_call = Add_TCP client | Add_Ws client

fun add_clients :: "add_call list \<Rightarrow> hub \<Rightarrow> hub" where
  "add_clients [] h = h"
| "add_clients (Add_TCP c # cs) h = add_clients cs (fst (AddTCPClient c h))"
| "add_clients (Add_Ws c # cs) h = add_clients cs (fst (AddWsClient c h))"

subsection \<open>Broadcasting\<close>

text \<open>
  \<open>for c := range hub.tcpClients\<close>. Go fixes no iteration order for a map, so the order
  is a parameter: the list \<open>ks\<close> in which the keys come up. An entry that was deleted
  before the loop reached it is not produced. The outcome of a write is the client
  connection's (parameter \<open>wr\<close>).
\<close>

fun range_tcpClients ::
  "status \<Rightarrow> (client \<Rightarrow> string \<Rightarrow> error option) \<Rightarrow> client list \<Rightarrow> hub \<Rightarrow> hub \<times> hub_action list"
where
  "range_tcpClients s wr [] h = (h, [])"
| "range_tcpClients s wr (c # ks) h =
     (case tcpClients h c of
        None \<Rightarrow> range_tcpClients s wr ks h
      | Some b \<Rightarrow>
          (let data = tcp_data s in
           (case wr c data of
              None \<Rightarrow>
                (let (h', tr) = range_tcpClients s wr ks h
                 in (h', Conn_write TCP c data None # tr))
            | Some err \<Rightarrow>
                (let h1 = h\<lparr>tcpClients := (tcpClients h)(c := None)\<rparr>;
                     (h', tr) = range_tcpClients s wr ks h1
                 in (h', [Conn_write TCP c data (Some err), Log (Write_error TCP c err),
                          Log (Disconnecting TCP c), Conn_close TCP c, Map_delete TCP c] @ tr)))))"

definition BroadcastToTCPClients ::
  "status \<Rightarrow> (client \<Rightarrow> string \<Rightarrow> error option) \<Rightarrow> client list \<Rightarrow> hub \<Rightarrow> hub \<times> hub_action list"
where
  "BroadcastToTCPClients s wr ks h =
     (let (h', tr) = range_tcpClients s wr ks h in (h', [Lock] @ tr @ [Unlock]))"

fun range_wsClients ::
  "string \<Rightarrow> (client \<Rightarrow> string \<Rightarrow> error option) \<Rightarrow> client list \<Rightarrow> hub \<Rightarrow> hub \<times> hub_action list"
where
  "range_wsClients msg wr [] h = (h, [])"
| "range_wsClients msg wr (c # ks) h =
     (case wsClients h c of
        None \<Rightarrow> range_wsClients msg wr ks h
      | Some b \<Rightarrow>
          (case wr c msg of
             None \<Rightarrow>
               (let (h', tr) = range_wsClients msg wr ks h
                in (h', Conn_write WS c msg None # tr))
           | Some err \<Rightarrow>
               (let h1 = h\<lparr>wsClients := (wsClients h)(c := None)\<rparr>;
                    (h', tr) = range_wsClients msg wr ks h1
                in (h', [Conn_write WS c msg (Some err), Log (Write_error WS c err),
                         Log (Disconnecting WS c), Conn_close WS c, Map_delete WS c] @ tr))))"

text \<open>
  \<open>json.Marshal(s)\<close> is the library's; \<open>marshal\<close> gives its outcome, an error or the
  message bytes.
\<close>

definition BroadcastToWsClients ::
  "(status \<Rightarrow> error + string) \<Rightarrow> status \<Rightarrow> (client \<Rightarrow> string \<Rightarrow> error option) \<Rightarrow> client list
     \<Rightarrow> hub \<Rightarrow> error option \<times> hub \<times> hub_action list"
where
  "BroadcastToWsClients marshal s wr ks h =
     (case marshal s of
        Inl err \<Rightarrow> (Some err, h, [Lock, Unlock])
      | Inr msg \<Rightarrow>
          (let (h', tr) = range_wsClients msg wr ks h in (None, h', [Lock] @ tr @ [Unlock])))"

definition Broadcast ::
  "(status \<Rightarrow> error + string) \<Rightarrow> status \<Rightarrow> (client \<Rightarrow> string \<Rightarrow> error option) \<Rightarrow> client list
     \<Rightarrow> (client \<Rightarrow> string \<Rightarrow> error option) \<Rightarrow> client list \<Rightarrow> hub \<Rightarrow> hub \<times> hub_action list"
where
  "Broadcast marshal s wr_tcp ks_tcp wr_ws ks_ws h =
     (let (h1, t1) = BroadcastToTCPClients s wr_tcp ks_tcp h;
          (err, h2, t2) = BroadcastToWsClients marshal s wr_ws ks_ws h1
      in (h2, t1 @ t2 @ (case err of None \<Rightarrow> [] | Some e \<Rightarrow> [Log (Broadcast_error e)])))"

text \<open>What a trace did to the connections of one transport: the writes, the closings.\<close>

fun writes_of :: "transport \<Rightarrow> hub_action list \<Rightarrow> (client \<times> string \<times> error option) list" where
  "writes_of t [] = []"
| "writes_of t (Conn_write t' c d r # tr) =
     (if t' = t then (c, d, r) # writes_of t tr else writes_of t tr)"
| "writes_of t (a # tr) = writes_of t tr"

fun closes_of :: "transport \<Rightarrow> hub_action list \<Rightarrow> client list" where
  "closes_of t [] = []"
| "closes_of t (Conn_close t' c # tr) = (if t' = t then c # closes_of t tr else closes_of t tr)"
| "closes_of t (a # tr) = closes_of t tr"

text \<open>
  Whether every map write of a trace happens while the operation holds the Hub's mutex;
  \<open>held\<close> tells whether it holds the mutex at the start.
\<close>

fun writes_under_lock :: "bool \<Rightarrow> hub_action list \<Rightarrow> bool" where
  "writes_under_lock held [] = True"
| "writes_under_lock held (Lock # tr) = writes_under_lock True tr"
| "writes_under_lock held (Unlock # tr) = writes_under_lock False tr"
| "writes_under_lock held (Map_delete t c # tr) = (held \<and> writes_under_lock held tr)"
| "writes_under_lock held (Map_insert t c # tr) = (held \<and> writes_under_lock held tr)"
| "writes_under_lock held (a # tr) = writes_under_lock held tr"

subsection \<open>Listeners\<close>

text \<open>
  How a call ends: it returns, it panics, or (the endless loops) it is still blocked
  waiting for the next connection when the inputs given to it are used up.
\<close>

datatype run_end = Returned | Panicked string | Blocked

text \<open>
  The accept loop of \<open>ListenTCP\<close> over the outcomes of \<open>l.Accept()\<close> so far, each with
  the pointer that \<open>&TCPClient{Conn: conn}\<close> allocates. An accept error is printed and the
  client is registered all the same.
\<close>

fun accept_loop :: "((error + conn) \<times> client) list \<Rightarrow> hub \<Rightarrow> hub \<times> hub_action list" where
  "accept_loop [] h = (h, [])"
| "accept_loop ((res, c) # rest) h =
     (let t0 = (case res of Inl err \<Rightarrow> [Log (Accept_error err)] | Inr cn \<Rightarrow> []);
          (h1, t1) = AddTCPClient c h;
          (h2, t2) = accept_loop rest h1
      in (h2, t0 @ t1 @ t2))"

text \<open>
  \<open>ListenTCP\<close>. \<open>listen\<close> is the outcome of \<open>net.Listen\<close> on the address. When it is an
  error the code logs it and goes on with \<open>l\<close> being the nil interface value: the next
  statement, \<open>defer l.Close()\<close>, has to evaluate the method value \<open>l.Close\<close>, which is a
  run-time panic on a nil interface. The one function deferred so far, \<open>close(tcpError)\<close>,
  runs while the panic unwinds.
\<close>

definition ListenTCP ::
  "string \<Rightarrow> int \<Rightarrow> (string \<Rightarrow> error + nat) \<Rightarrow> ((error + conn) \<times> client) list \<Rightarrow> hub
     \<Rightarrow> hub \<times> hub_action list \<times> run_end"
where
  "ListenTCP hst prt listen accepts h =
     (let addr = hst @ '':'' @ fmt_d prt in
      (case listen addr of
         Inl err \<Rightarrow>
           (h, [Log (Listener_error err), Chan_close],
            Panicked ''runtime error: invalid memory address or nil pointer dereference'')
       | Inr l \<Rightarrow>
           (let (h', tr) = accept_loop accepts h
            in (h', Log (Listening TCP addr) # tr, Blocked))))"

definition wsHandler :: "(error + conn) \<Rightarrow> client \<Rightarrow> hub \<Rightarrow> hub \<times> hub_action list" where
  "wsHandler upgraded c h =
     (case upgraded of
        Inl err \<Rightarrow> (h, [Log (Upgrade_error err)])
      | Inr cn \<Rightarrow> AddWsClient c h)"

text \<open>
  \<open>ListenWS\<close>. \<open>serve\<close> is \<open>http.ListenAndServe\<close> on the address: \<open>None\<close> while it is
  serving, otherwise the error it returned.
\<close>

definition ListenWS ::
  "string \<Rightarrow> int \<Rightarrow> (string \<Rightarrow> error option option) \<Rightarrow> hub_action list \<times> run_end" where
  "ListenWS hst prt serve =
     (let addr = hst @ '':'' @ fmt_d prt in
      (case serve addr of
         None \<Rightarrow> ([Log (Listening WS addr)], Blocked)
       | Some None \<Rightarrow> ([Log (Listening WS addr), Chan_close], Returned)
       | Some (Some err) \<Rightarrow>
           ([Log (Listening WS addr), Log (Serve_error err), Chan_close], Returned)))"

section \<open>Properties of the Proxy\<close>

text \<open>
  Claim C10. For every Proxy state the snapshot returned by \<open>Status()\<close> agrees with the
  individual read accessors: its name, azimuth, azimuth preset, elevation and elevation
  preset are the values of \<open>Name()\<close>, \<open>Azimuth()\<close>, \<open>AzPreset()\<close>, \<open>Elevation()\<close> and
  \<open>ElPreset()\<close>.
\<close>

theorem Status_agrees_with_accessors:
  "status_Name (Status r) = Name r \<and>
   status_Azimuth (Status r) = Azimuth r \<and>
   status_AzPreset (Status r) = AzPreset r \<and>
   status_Elevation (Status r) = Elevation r \<and>
   status_ElPreset (Status r) = ElPreset r"
  by (simp add: Status_def Name_def Azimuth_def AzPreset_def Elevation_def ElPreset_def)

text \<open>
  Claim C9. On a Proxy with an open connection each of the commands \<open>SetAzimuth\<close>,
  \<open>SetElevation\<close>, \<open>StopAzimuth\<close>, \<open>StopElevation\<close> and \<open>Stop\<close> writes exactly one
  request on that connection, the one with the matching fields set and every other field
  at its zero value, returns the outcome of that write, and leaves the Proxy, and so every
  cached field, as it was.
\<close>

theorem commands_write_and_keep_cache:
  assumes "conn r = Some c"
  shows "SetAzimuth az w r =
           (let req = \<lparr>req_HasAzimuth = True, req_Azimuth = az, req_HasElevation = False,
                       req_Elevation = 0, req_StopAzimuth = False, req_StopElevation = False,
                       req_Stop = False\<rparr>
            in Return (w c req, r, [Sent c req])) \<and>
         SetElevation el w r =
           (let req = \<lparr>req_HasAzimuth = False, req_Azimuth = 0, req_HasElevation = True,
                       req_Elevation = el, req_StopAzimuth = False, req_StopElevation = False,
                       req_Stop = False\<rparr>
            in Return (w c req, r, [Sent c req])) \<and>
         StopAzimuth w r =
           (let req = \<lparr>req_HasAzimuth = False, req_Azimuth = 0, req_HasElevation = False,
                       req_Elevation = 0, req_StopAzimuth = True, req_StopElevation = False,
                       req_Stop = False\<rparr>
            in Return (w c req, r, [Sent c req])) \<and>
         StopElevation w r =
           (let req = \<lparr>req_HasAzimuth = False, req_Azimuth = 0, req_HasElevation = False,
                       req_Elevation = 0, req_StopAzimuth = False, req_StopElevation = True,
                       req_Stop = False\<rparr>
            in Return (w c req, r, [Sent c req])) \<and>
         Stop w r =
           (let req = \<lparr>req_HasAzimuth = False, req_Azimuth = 0, req_HasElevation = False,
                       req_Elevation = 0, req_StopAzimuth = False, req_StopElevation = False,
                       req_Stop = True\<rparr>
            in Return (w c req, r, [Sent c req]))"
  using assms
  by (simp add: SetAzimuth_def SetElevation_def StopAzimuth_def StopElevation_def Stop_def
        WriteJSON_def Let_def request_zero_def)

text \<open>The same on a Proxy connected as connection 7, with a write that succeeds.\<close>

theorem commands_write_and_keep_cache_witness:
  "conn (proxy_literal\<lparr>conn := Some 7\<rparr>) = Some 7 \<and>
   SetAzimuth 90 (\<lambda>c q. None) (proxy_literal\<lparr>conn := Some 7\<rparr>) =
     Return (None, proxy_literal\<lparr>conn := Some 7\<rparr>,
             [Sent 7 \<lparr>req_HasAzimuth = True, req_Azimuth = 90, req_HasElevation = False,
                      req_Elevation = 0, req_StopAzimuth = False, req_StopElevation = False,
                      req_Stop = False\<rparr>])"
proof -
  have c: "conn (proxy_literal\<lparr>conn := Some 7\<rparr>) = Some 7" by simp
  show ?thesis
    using c commands_write_and_keep_cache [OF c, of 90 "\<lambda>c q. None"] by (simp add: Let_def)
qed

lemma on_heading_cache:
  "fst (on_heading s r) =
     r\<lparr>azimuth := status_Azimuth s, azPreset := status_AzPreset s,
       elevation := status_Elevation s, elPreset := status_ElPreset s\<rparr>"
  by (simp add: on_heading_def Let_def split_def)

lemma on_heading_calls:
  "snd (on_heading s r) =
     (case eventHandler r of
        None \<Rightarrow> []
      | Some h \<Rightarrow>
          (if azimuth r \<noteq> status_Azimuth s then [(h, Azimuth_Event, s)] else []) @
          (if azPreset r \<noteq> status_AzPreset s then [(h, Azimuth_Event, s)] else []) @
          (if elevation r \<noteq> status_Elevation s then [(h, Elevation_Event, s)] else []) @
          (if elPreset r \<noteq> status_ElPreset s then [(h, Elevation_Event, s)] else []))"
  by (simp add: on_heading_def Let_def split_def notify_def split: option.split)

text \<open>
  Claim C3, as the code has it. On a \<open>"heading"\<close> event the Proxy compares azimuth,
  azimuth preset, elevation and elevation preset one by one against its cache. Afterwards
  the four cached values are those of the event and no other field has changed. If a
  handler is registered it is called once for each field that differed, with the azimuth
  event for azimuth and azimuth preset and with the elevation event for elevation and
  elevation preset, so an axis whose heading and preset both differ gets two calls; with
  no handler there is no call. The event leaves the Proxy as it was and starts no call
  exactly when all four values equal the cached ones.
\<close>

theorem heading_event_per_field:
  assumes "event_Name ev = ''heading''"
  shows "fst (on_event ev r) =
           r\<lparr>azimuth := status_Azimuth (event_Status ev),
             azPreset := status_AzPreset (event_Status ev),
             elevation := status_Elevation (event_Status ev),
             elPreset := status_ElPreset (event_Status ev)\<rparr> \<and>
         snd (on_event ev r) =
           (case eventHandler r of
              None \<Rightarrow> []
            | Some h \<Rightarrow>
                (if azimuth r \<noteq> status_Azimuth (event_Status ev)
                 then [(h, Azimuth_Event, event_Status ev)] else []) @
                (if azPreset r \<noteq> status_AzPreset (event_Status ev)
                 then [(h, Azimuth_Event, event_Status ev)] else []) @
                (if elevation r \<noteq> status_Elevation (event_Status ev)
                 then [(h, Elevation_Event, event_Status ev)] else []) @
                (if elPreset r \<noteq> status_ElPreset (event_Status ev)
                 then [(h, Elevation_Event, event_Status ev)] else [])) \<and>
         (on_event ev r = (r, [])) =
           (azimuth r = status_Azimuth (event_Status ev) \<and>
            azPreset r = status_AzPreset (event_Status ev) \<and>
            elevation r = status_Elevation (event_Status ev) \<and>
            elPreset r = status_ElPreset (event_Status ev))"
proof -
  from assms have e: "on_event ev r = on_heading (event_Status ev) r"
    by (simp add: on_event_def)
  have 1: "fst (on_event ev r) =
           r\<lparr>azimuth := status_Azimuth (event_Status ev),
             azPreset := status_AzPreset (event_Status ev),
             elevation := status_Elevation (event_Status ev),
             elPreset := status_ElPreset (event_Status ev)\<rparr>"
    by (simp add: e on_heading_cache)
  have 2: "snd (on_event ev r) = (case eventHandler r of
              None \<Rightarrow> []
            | Some h \<Rightarrow>
                (if azimuth r \<noteq> status_Azimuth (event_Status ev)
                 then [(h, Azimuth_Event, event_Status ev)] else []) @
                (if azPreset r \<noteq> status_AzPreset (event_Status ev)
                 then [(h, Azimuth_Event, event_Status ev)] else []) @
                (if elevation r \<noteq> status_Elevation (event_Status ev)
                 then [(h, Elevation_Event, event_Status ev)] else []) @
                (if elPreset r \<noteq> status_ElPreset (event_Status ev)
                 then [(h, Elevation_Event, event_Status ev)] else []))"
    by (simp add: e on_heading_calls)
  have 3: "(on_event ev r = (r, [])) =
           (azimuth r = status_Azimuth (event_Status ev) \<and>
            azPreset r = status_AzPreset (event_Status ev) \<and>
            elevation r = status_Elevation (event_Status ev) \<and>
            elPreset r = status_ElPreset (event_Status ev))"
  proof
    assume "on_event ev r = (r, [])"
    then have a: "fst (on_event ev r) = r" by simp
    have "azimuth (fst (on_event ev r)) = status_Azimuth (event_Status ev)"
      "azPreset (fst (on_event ev r)) = status_AzPreset (event_Status ev)"
      "elevation (fst (on_event ev r)) = status_Elevation (event_Status ev)"
      "elPreset (fst (on_event ev r)) = status_ElPreset (event_Status ev)"
      by (simp_all add: 1)
    with a show "azimuth r = status_Azimuth (event_Status ev) \<and>
            azPreset r = status_AzPreset (event_Status ev) \<and>
            elevation r = status_Elevation (event_Status ev) \<and>
            elPreset r = status_ElPreset (event_Status ev)"
      by simp
  next
    assume same: "azimuth r = status_Azimuth (event_Status ev) \<and>
            azPreset r = status_AzPreset (event_Status ev) \<and>
            elevation r = status_Elevation (event_Status ev) \<and>
            elPreset r = status_ElPreset (event_Status ev)"
    then have "fst (on_event ev r) = r" "snd (on_event ev r) = []"
      by (simp_all add: 1 2 split: option.split)
    then show "on_event ev r = (r, [])" by (simp add: prod_eq_iff)
  qed
  from 1 2 3 show ?thesis by blast
qed

text \<open>A Proxy with handler 1 and a zero cache receives a heading with azimuth 10.\<close>

theorem heading_event_per_field_witness:
  "event_Name \<lparr>event_Name = ''heading'', event_Status =
       \<lparr>status_Name = ''r'', status_Azimuth = 10, status_AzPreset = 0,
          status_AzimuthOverlap = False, status_Elevation = 0, status_ElPreset = 0\<rparr>\<rparr> = ''heading'' \<and>
   azimuth (fst (on_event \<lparr>event_Name = ''heading'', event_Status =
       \<lparr>status_Name = ''r'', status_Azimuth = 10, status_AzPreset = 0,
          status_AzimuthOverlap = False, status_Elevation = 0, status_ElPreset = 0\<rparr>\<rparr>
       (proxy_literal\<lparr>eventHandler := Some 1\<rparr>))) = 10 \<and>
   snd (on_event \<lparr>event_Name = ''heading'', event_Status =
       \<lparr>status_Name = ''r'', status_Azimuth = 10, status_AzPreset = 0,
          status_AzimuthOverlap = False, status_Elevation = 0, status_ElPreset = 0\<rparr>\<rparr>
       (proxy_literal\<lparr>eventHandler := Some 1\<rparr>)) =
     [(1, Azimuth_Event, \<lparr>status_Name = ''r'', status_Azimuth = 10, status_AzPreset = 0,
          status_AzimuthOverlap = False, status_Elevation = 0, status_ElPreset = 0\<rparr>)]"
proof -
  have n: "event_Name \<lparr>event_Name = ''heading'', event_Status =
       \<lparr>status_Name = ''r'', status_Azimuth = 10, status_AzPreset = 0,
          status_AzimuthOverlap = False, status_Elevation = 0, status_ElPreset = 0\<rparr>\<rparr> = ''heading''"
    by simp
  show ?thesis
    using n heading_event_per_field [OF n, of "proxy_literal\<lparr>eventHandler := Some 1\<rparr>"]
    by (simp add: proxy_literal_def)
qed

text \<open>
  Not once per axis: with a zero cache, a heading whose azimuth and azimuth preset are
  both 10 starts two handler calls carrying the azimuth event.
\<close>

theorem heading_two_calls_for_one_axis:
  "axis_calls Azimuth_Event
     (snd (on_event \<lparr>event_Name = ''heading'', event_Status =
              \<lparr>status_Name = ''r'', status_Azimuth = 10, status_AzPreset = 10,
                 status_AzimuthOverlap = False, status_Elevation = 0, status_ElPreset = 0\<rparr>\<rparr>
            (proxy_literal\<lparr>eventHandler := Some 1\<rparr>))) = 2"
  by (simp add: on_event_def on_heading_def notify_def axis_calls_def proxy_literal_def Let_def)

lemma foldl_apply_option_keeps:
  "azimuthOverlap (foldl (\<lambda>r opt. apply_option opt r) r0 opts) = azimuthOverlap r0"
proof (induction opts arbitrary: r0)
  case Nil
  show ?case by simp
next
  case (Cons opt opts)
  show ?case by (cases opt) (simp_all add: Cons.IH)
qed

lemma getInfo_one:
  "http_get e (''http://'' @ host r @ '':'' @ fmt_d (port r) @ ''/info'') = Inr body \<Longrightarrow>
   decode_infos e body = Inr [i] \<Longrightarrow>
   \<exists>r1. fst (getInfo e r) = Return (None, r1) \<and> Info r1 = i\<lparr>info_AzimuthOverlap := azimuthOverlap r\<rparr>
      \<and> host r1 = host r \<and> port r1 = port r \<and> conn r1 = conn r \<and> eventHandler r1 = eventHandler r"
  by (simp add: getInfo_def Info_def)

text \<open>
  Claim C1, evaluated on the code. The info response decodes to exactly one descriptor
  whose overlap flag is set, and the dial succeeds. \<open>New\<close> returns a Proxy, and \<open>Info()\<close>
  on it agrees with the fetched descriptor in every field but the overlap flag:
  \<open>getInfo\<close> never copies that flag, so \<open>Info()\<close> reports it as false and differs from
  the descriptor that was fetched.
\<close>

theorem New_drops_overlap:
  "\<exists>r. fst (New \<lparr>http_get = (\<lambda>u. Inr body),
                   decode_infos = (\<lambda>b. Inr [i\<lparr>info_AzimuthOverlap := True\<rparr>]),
                   ws_dial = (\<lambda>u. Inr c)\<rparr> opts) = Return (Inr r) \<and>
       Info r = i\<lparr>info_AzimuthOverlap := False\<rparr> \<and>
       Info r \<noteq> i\<lparr>info_AzimuthOverlap := True\<rparr>"
proof -
  let ?e = "\<lparr>http_get = (\<lambda>u. Inr body),
             decode_infos = (\<lambda>b. Inr [i\<lparr>info_AzimuthOverlap := True\<rparr>]),
             ws_dial = (\<lambda>u. Inr c)\<rparr>"
  let ?r0 = "foldl (\<lambda>r opt. apply_option opt r) proxy_literal opts"
  have ov: "azimuthOverlap ?r0 = False"
    by (simp add: foldl_apply_option_keeps proxy_literal_def)
  obtain r1 where g: "fst (getInfo ?e ?r0) = Return (None, r1)"
    and i1: "Info r1 = i\<lparr>info_AzimuthOverlap := True, info_AzimuthOverlap := azimuthOverlap ?r0\<rparr>"
    using getInfo_one [of ?e ?r0 body "i\<lparr>info_AzimuthOverlap := True\<rparr>"] by auto
  from g have n: "fst (New ?e opts) = Return (Inr (r1\<lparr>conn := Some c\<rparr>))"
    by (cases "getInfo ?e ?r0") (simp add: New_def Let_def)
  have "Info (r1\<lparr>conn := Some c\<rparr>) = Info r1"
    by (simp add: Info_def)
  with i1 ov have i2: "Info (r1\<lparr>conn := Some c\<rparr>) = i\<lparr>info_AzimuthOverlap := False\<rparr>"
    by simp
  have "i\<lparr>info_AzimuthOverlap := False\<rparr> \<noteq> i\<lparr>info_AzimuthOverlap := True\<rparr>"
  proof
    assume "i\<lparr>info_AzimuthOverlap := False\<rparr> = i\<lparr>info_AzimuthOverlap := True\<rparr>"
    then have "info_AzimuthOverlap (i\<lparr>info_AzimuthOverlap := False\<rparr>)
             = info_AzimuthOverlap (i\<lparr>info_AzimuthOverlap := True\<rparr>)"
      by (rule arg_cong)
    then show False by simp
  qed
  with n i2 show ?thesis by auto
qed

text \<open>
  Claim C2, evaluated on the code. When the info response decodes to an empty collection
  \<open>New\<close> does not return an error: the length check lets the empty slice through and
  the read of its first element panics. No dial is made.
\<close>

theorem New_panics_on_no_info:
  "fst (New \<lparr>http_get = (\<lambda>u. Inr body), decode_infos = (\<lambda>b. Inr []), ws_dial = d\<rparr> opts)
     = Panic ''runtime error: index out of range'' \<and>
   (\<forall>u. WS_Dial u \<notin> set (snd (New \<lparr>http_get = (\<lambda>u. Inr body), decode_infos = (\<lambda>b. Inr []),
                                        ws_dial = d\<rparr> opts)))"
  by (simp add: New_def getInfo_def Let_def)

text \<open>With two or more descriptors \<open>New\<close> returns an error and makes no dial.\<close>

lemma New_rejects_several_infos:
  "\<exists>err. fst (New \<lparr>http_get = (\<lambda>u. Inr body), decode_infos = (\<lambda>b. Inr (i # j # js)),
                     ws_dial = d\<rparr> opts) = Return (Inl err) \<and>
   (\<forall>u. WS_Dial u \<notin> set (snd (New \<lparr>http_get = (\<lambda>u. Inr body),
                                        decode_infos = (\<lambda>b. Inr (i # j # js)),
                                        ws_dial = d\<rparr> opts)))"
  by (simp add: New_def getInfo_def Let_def)

section \<open>Properties of the Hub\<close>

lemma replicate_small:
  "replicate 2 c = [c, c]" "replicate (Suc 0) c = [c]"
  by (simp_all add: numeral_2_eq_2)

lemma fmt_nat_lt_1000:
  assumes "n < 1000"
  shows "replicate (3 - length (fmt_nat n)) (CHR ''0'') @ fmt_nat n =
         [digit (n div 100), digit (n div 10 mod 10), digit (n mod 10)]"
proof -
  consider "n < 10" | "10 \<le> n" "n < 100" | "100 \<le> n"
    by linarith
  then show ?thesis
  proof cases
    case 1
    then show ?thesis
      by (simp add: fmt_nat.simps [of n] digit_def replicate_small)
  next
    case 2
    then have "n div 10 < 10" by simp
    with 2 show ?thesis
      by (simp add: fmt_nat.simps [of n] fmt_nat.simps [of "n div 10"] digit_def replicate_small)
  next
    case 3
    with assms have a: "\<not> n div 10 < 10" "n div 100 < 10" "\<not> n < 10" by simp_all
    have b: "n div 10 div 10 = n div 100" by (simp add: div_mult2_eq)
    from a show ?thesis
      by (simp add: fmt_nat.simps [of n] fmt_nat.simps [of "n div 10"]
            fmt_nat.simps [of "n div 100"] b)
  qed
qed

lemma fmt_d_prec_3:
  assumes "0 \<le> a" "a \<le> 999"
  shows "fmt_d_prec 3 a =
         [digit (nat a div 100), digit (nat a div 10 mod 10), digit (nat a mod 10)]"
proof -
  from assms have "nat \<bar>a\<bar> = nat a" "nat a < 1000" "\<not> a < 0" by simp_all
  then show ?thesis
    using fmt_nat_lt_1000 [of "nat a"] by (simp add: fmt_d_prec_def Let_def)
qed

text \<open>
  Claim C5, as the code has it. For every Status whose azimuth and elevation lie between
  0 and 999 the TCP push encoding is \<open>+0AAA+0EEE\<close> followed by CR LF, where \<open>AAA\<close> and
  \<open>EEE\<close> are the three decimal digits of azimuth and elevation, leading zeros included.
  Azimuth 5 with elevation 120 gives \<open>+0005+0120\<close>, azimuth 360 with elevation 0 gives
  \<open>+0360+0000\<close>.
\<close>

theorem tcp_push_encoding:
  assumes "0 \<le> status_Azimuth s" and "status_Azimuth s \<le> 999"
    and "0 \<le> status_Elevation s" and "status_Elevation s \<le> 999"
  shows "tcp_data s =
           ''+0'' @ [digit (nat (status_Azimuth s) div 100),
                     digit (nat (status_Azimuth s) div 10 mod 10),
                     digit (nat (status_Azimuth s) mod 10)] @
           ''+0'' @ [digit (nat (status_Elevation s) div 100),
                     digit (nat (status_Elevation s) div 10 mod 10),
                     digit (nat (status_Elevation s) mod 10)] @ CRLF \<and>
         tcp_data (s\<lparr>status_Azimuth := 5, status_Elevation := 120\<rparr>) = ''+0005+0120'' @ CRLF \<and>
         tcp_data (s\<lparr>status_Azimuth := 360, status_Elevation := 0\<rparr>) = ''+0360+0000'' @ CRLF"
proof -
  have general: "tcp_data s =
           ''+0'' @ [digit (nat (status_Azimuth s) div 100),
                     digit (nat (status_Azimuth s) div 10 mod 10),
                     digit (nat (status_Azimuth s) mod 10)] @
           ''+0'' @ [digit (nat (status_Elevation s) div 100),
                     digit (nat (status_Elevation s) div 10 mod 10),
                     digit (nat (status_Elevation s) mod 10)] @ CRLF"
    using assms by (simp add: tcp_data_def fmt_d_prec_3)
  have first: "tcp_data (s\<lparr>status_Azimuth := 5, status_Elevation := 120\<rparr>) = ''+0005+0120'' @ CRLF"
    by (simp add: tcp_data_def fmt_d_prec_3 digit_def)
  have second: "tcp_data (s\<lparr>status_Azimuth := 360, status_Elevation := 0\<rparr>) = ''+0360+0000'' @ CRLF"
    by (simp add: tcp_data_def fmt_d_prec_3 digit_def)
  from general first second show ?thesis by blast
qed

text \<open>The encoding of azimuth 45 with elevation 7, from the general form.\<close>

theorem tcp_push_encoding_witness:
  "(0::int) \<le> 45 \<and> (45::int) \<le> 999 \<and> (0::int) \<le> 7 \<and> (7::int) \<le> 999 \<and>
   tcp_data \<lparr>status_Name = ''r'', status_Azimuth = 45, status_AzPreset = 0,
              status_AzimuthOverlap = False, status_Elevation = 7, status_ElPreset = 0\<rparr>
     = ''+0045+0007'' @ CRLF"
  using tcp_push_encoding [of "\<lparr>status_Name = ''r'', status_Azimuth = 45, status_AzPreset = 0,
              status_AzimuthOverlap = False, status_Elevation = 7, status_ElPreset = 0\<rparr>"]
  by (simp add: digit_def)

text \<open>
  Outside that range the shape is another one: azimuth 1000 is printed with its four
  digits, and the line is one character longer.
\<close>

theorem tcp_data_four_digits:
  "tcp_data \<lparr>status_Name = ''r'', status_Azimuth = 1000, status_AzPreset = 0,
              status_AzimuthOverlap = False, status_Elevation = 0, status_ElPreset = 0\<rparr>
     = ''+01000+0000'' @ CRLF \<and>
   length (tcp_data \<lparr>status_Name = ''r'', status_Azimuth = 1000, status_AzPreset = 0,
              status_AzimuthOverlap = False, status_Elevation = 0, status_ElPreset = 0\<rparr>) = 13"
  by (simp add: tcp_data_def fmt_d_prec_def fmt_nat.simps digit_def replicate_small CRLF_def)

text \<open>A negative value keeps its sign in front of the padded digits.\<close>

lemma tcp_data_negative:
  "tcp_data \<lparr>status_Name = ''r'', status_Azimuth = - 5, status_AzPreset = 0,
              status_AzimuthOverlap = False, status_Elevation = 0, status_ElPreset = 0\<rparr>
     = ''+0-005+0000'' @ CRLF"
  by (simp add: tcp_data_def fmt_d_prec_def fmt_nat.simps digit_def replicate_small)

lemma range_tcp_locked:
  "writes_under_lock True (snd (range_tcpClients s wr ks h) @ rest) = writes_under_lock True rest"
proof (induction ks arbitrary: h)
  case Nil
  show ?case by simp
next
  case (Cons c ks)
  show ?case
    by (simp add: Cons.IH split_def Let_def split: option.split)
qed

lemma range_ws_locked:
  "writes_under_lock True (snd (range_wsClients msg wr ks h) @ rest) = writes_under_lock True rest"
proof (induction ks arbitrary: h)
  case Nil
  show ?case by simp
next
  case (Cons c ks)
  show ?case
    by (simp add: Cons.IH split_def Let_def split: option.split)
qed

text \<open>
  Claim C4, evaluated on the code. \<open>AddTCPClient\<close>, \<open>RemoveTCPClient\<close>,
  \<open>RemoveWsClient\<close> and the two broadcasts change the client maps only between taking
  and releasing the Hub's mutex. \<open>AddWsClient\<close> does not: it writes to \<open>wsClients\<close> without
  ever taking the mutex.
\<close>

theorem AddWsClient_not_under_lock:
  "writes_under_lock False (snd (AddTCPClient c h)) \<and>
   writes_under_lock False (snd (RemoveTCPClient c h)) \<and>
   writes_under_lock False (snd (RemoveWsClient c h)) \<and>
   writes_under_lock False (snd (BroadcastToTCPClients s wr ks h)) \<and>
   writes_under_lock False (snd (snd (BroadcastToWsClients marshal s wr ks h))) \<and>
   \<not> writes_under_lock False (snd (AddWsClient c h))"
proof -
  have 1: "writes_under_lock False (snd (AddTCPClient c h))"
    by (simp add: AddTCPClient_def Let_def)
  have 2: "writes_under_lock False (snd (RemoveTCPClient c h))"
    by (simp add: RemoveTCPClient_def Let_def)
  have 3: "writes_under_lock False (snd (RemoveWsClient c h))"
    by (simp add: RemoveWsClient_def Let_def)
  have 4: "writes_under_lock False (snd (BroadcastToTCPClients s wr ks h))"
    by (simp add: BroadcastToTCPClients_def split_def Let_def range_tcp_locked)
  have 5: "writes_under_lock False (snd (snd (BroadcastToWsClients marshal s wr ks h)))"
    by (simp add: BroadcastToWsClients_def split_def Let_def range_ws_locked split: sum.split)
  have 6: "\<not> writes_under_lock False (snd (AddWsClient c h))"
    by (simp add: AddWsClient_def Let_def)
  from 1 2 3 4 5 6 show ?thesis by blast
qed

lemma writes_of_append:
  "writes_of t (xs @ ys) = writes_of t xs @ writes_of t ys"
proof (induction xs)
  case Nil
  show ?case by simp
next
  case (Cons a xs)
  then show ?case by (cases a) simp_all
qed

lemma closes_of_append:
  "closes_of t (xs @ ys) = closes_of t xs @ closes_of t ys"
proof (induction xs)
  case Nil
  show ?case by simp
next
  case (Cons a xs)
  then show ?case by (cases a) simp_all
qed

lemma range_tcp_map:
  "tcpClients (fst (range_tcpClients s wr ks h)) =
     (\<lambda>c. if c \<in> set ks \<and> wr c (tcp_data s) \<noteq> None then None else tcpClients h c)"
proof (induction ks arbitrary: h)
  case Nil
  show ?case by simp
next
  case (Cons k ks)
  show ?case
    by (auto simp: Cons.IH split_def Let_def fun_eq_iff split: option.split)
qed

lemma range_tcp_ws_unchanged:
  "wsClients (fst (range_tcpClients s wr ks h)) = wsClients h"
proof (induction ks arbitrary: h)
  case Nil
  show ?case by simp
next
  case (Cons k ks)
  show ?case
    by (simp add: Cons.IH split_def Let_def split: option.split)
qed

lemma range_tcp_writes:
  "distinct ks \<Longrightarrow>
   writes_of TCP (snd (range_tcpClients s wr ks h)) =
     map (\<lambda>c. (c, tcp_data s, wr c (tcp_data s))) (filter (\<lambda>c. tcpClients h c \<noteq> None) ks)"
proof (induction ks arbitrary: h)
  case Nil
  show ?case by simp
next
  case (Cons k ks)
  then have d: "distinct ks" and nk: "k \<notin> set ks" by simp_all
  have f: "filter (\<lambda>c. ((tcpClients h)(k := None)) c \<noteq> None) ks
         = filter (\<lambda>c. tcpClients h c \<noteq> None) ks"
    using nk by (intro filter_cong) auto
  have ih: "writes_of TCP (snd (range_tcpClients s wr ks (h\<lparr>tcpClients := (tcpClients h)(k := None)\<rparr>)))
       = map (\<lambda>c. (c, tcp_data s, wr c (tcp_data s))) (filter (\<lambda>c. tcpClients h c \<noteq> None) ks)"
    unfolding Cons.IH [OF d] using f by simp
  show ?case
  proof (cases "tcpClients h k")
    case None
    then show ?thesis by (simp add: Cons.IH [OF d])
  next
    case (Some b)
    then show ?thesis
      by (cases "wr k (tcp_data s)") (simp_all add: Cons.IH [OF d, of h] ih split_def Let_def)
  qed
qed

lemma range_tcp_closes:
  "distinct ks \<Longrightarrow>
   closes_of TCP (snd (range_tcpClients s wr ks h)) =
     filter (\<lambda>c. tcpClients h c \<noteq> None \<and> wr c (tcp_data s) \<noteq> None) ks"
proof (induction ks arbitrary: h)
  case Nil
  show ?case by simp
next
  case (Cons k ks)
  then have d: "distinct ks" and nk: "k \<notin> set ks" by simp_all
  have f: "filter (\<lambda>c. ((tcpClients h)(k := None)) c \<noteq> None \<and> wr c (tcp_data s) \<noteq> None) ks
         = filter (\<lambda>c. tcpClients h c \<noteq> None \<and> wr c (tcp_data s) \<noteq> None) ks"
    using nk by (intro filter_cong) auto
  have ih: "closes_of TCP (snd (range_tcpClients s wr ks (h\<lparr>tcpClients := (tcpClients h)(k := None)\<rparr>)))
       = filter (\<lambda>c. tcpClients h c \<noteq> None \<and> wr c (tcp_data s) \<noteq> None) ks"
    unfolding Cons.IH [OF d] using f by simp
  show ?case
  proof (cases "tcpClients h k")
    case None
    then show ?thesis by (simp add: Cons.IH [OF d])
  next
    case (Some b)
    then show ?thesis
      by (cases "wr k (tcp_data s)") (simp_all add: Cons.IH [OF d, of h] ih split_def Let_def)
  qed
qed

lemma range_tcp_writes_registered:
  "fst ` set (writes_of TCP (snd (range_tcpClients s wr ks h))) \<subseteq> dom (tcpClients h)"
proof (induction ks arbitrary: h)
  case Nil
  show ?case by simp
next
  case (Cons k ks)
  have a: "fst ` set (writes_of TCP (snd (range_tcpClients s wr ks h))) \<subseteq> dom (tcpClients h)"
    by (rule Cons.IH)
  have "fst ` set (writes_of TCP (snd (range_tcpClients s wr ks (h\<lparr>tcpClients := (tcpClients h)(k := None)\<rparr>))))
           \<subseteq> dom (tcpClients (h\<lparr>tcpClients := (tcpClients h)(k := None)\<rparr>))"
    by (rule Cons.IH)
  then have b: "fst ` set (writes_of TCP (snd (range_tcpClients s wr ks (h\<lparr>tcpClients := (tcpClients h)(k := None)\<rparr>))))
           \<subseteq> dom (tcpClients h)"
    by auto
  show ?case
    using a b by (auto simp: split_def Let_def split: option.split)
qed

lemma Broadcast_tcp_facts:
  assumes "distinct ks" "set ks = dom (tcpClients h)"
  shows "tcpClients (fst (BroadcastToTCPClients s wr ks h)) =
           tcpClients h |` {c. wr c (tcp_data s) = None}"
    and "wsClients (fst (BroadcastToTCPClients s wr ks h)) = wsClients h"
    and "writes_of TCP (snd (BroadcastToTCPClients s wr ks h)) =
           map (\<lambda>c. (c, tcp_data s, wr c (tcp_data s))) ks"
    and "closes_of TCP (snd (BroadcastToTCPClients s wr ks h)) =
           filter (\<lambda>c. wr c (tcp_data s) \<noteq> None) ks"
proof -
  have p: "\<And>c. c \<in> set ks \<Longrightarrow> tcpClients h c \<noteq> None"
    using assms(2) by auto
  have q: "\<And>c. c \<notin> set ks \<Longrightarrow> tcpClients h c = None"
    using assms(2) by auto
  show "tcpClients (fst (BroadcastToTCPClients s wr ks h)) =
           tcpClients h |` {c. wr c (tcp_data s) = None}"
    using p q
    by (auto simp: BroadcastToTCPClients_def split_def Let_def range_tcp_map restrict_map_def
          fun_eq_iff)
  show "wsClients (fst (BroadcastToTCPClients s wr ks h)) = wsClients h"
    by (simp add: BroadcastToTCPClients_def split_def Let_def range_tcp_ws_unchanged)
  have f1: "filter (\<lambda>c. tcpClients h c \<noteq> None) ks = ks"
    using p by (simp add: filter_id_conv)
  show "writes_of TCP (snd (BroadcastToTCPClients s wr ks h)) =
           map (\<lambda>c. (c, tcp_data s, wr c (tcp_data s))) ks"
    unfolding BroadcastToTCPClients_def split_def Let_def
    by (simp add: writes_of_append range_tcp_writes [OF assms(1)] f1 del: not_None_eq)
  have f2: "filter (\<lambda>c. tcpClients h c \<noteq> None \<and> wr c (tcp_data s) \<noteq> None) ks
          = filter (\<lambda>c. wr c (tcp_data s) \<noteq> None) ks"
    using p by (intro filter_cong) auto
  show "closes_of TCP (snd (BroadcastToTCPClients s wr ks h)) =
           filter (\<lambda>c. wr c (tcp_data s) \<noteq> None) ks"
    unfolding BroadcastToTCPClients_def split_def Let_def
    by (simp add: closes_of_append range_tcp_closes [OF assms(1)] f2 del: not_None_eq)
qed

lemma Broadcast_tcp_only_registered:
  "fst ` set (writes_of TCP (snd (BroadcastToTCPClients s wr ks h))) \<subseteq> dom (tcpClients h)"
  using range_tcp_writes_registered [of s wr ks h]
  by (simp add: BroadcastToTCPClients_def split_def Let_def writes_of_append)

lemma range_ws_map:
  "wsClients (fst (range_wsClients msg wr ks h)) =
     (\<lambda>c. if c \<in> set ks \<and> wr c msg \<noteq> None then None else wsClients h c)"
proof (induction ks arbitrary: h)
  case Nil
  show ?case by simp
next
  case (Cons k ks)
  show ?case
    by (auto simp: Cons.IH split_def Let_def fun_eq_iff split: option.split)
qed

lemma range_ws_tcp_unchanged:
  "tcpClients (fst (range_wsClients msg wr ks h)) = tcpClients h"
proof (induction ks arbitrary: h)
  case Nil
  show ?case by simp
next
  case (Cons k ks)
  show ?case
    by (simp add: Cons.IH split_def Let_def split: option.split)
qed

lemma range_ws_writes:
  "distinct ks \<Longrightarrow>
   writes_of WS (snd (range_wsClients msg wr ks h)) =
     map (\<lambda>c. (c, msg, wr c msg)) (filter (\<lambda>c. wsClients h c \<noteq> None) ks)"
proof (induction ks arbitrary: h)
  case Nil
  show ?case by simp
next
  case (Cons k ks)
  then have d: "distinct ks" and nk: "k \<notin> set ks" by simp_all
  have f: "filter (\<lambda>c. ((wsClients h)(k := None)) c \<noteq> None) ks
         = filter (\<lambda>c. wsClients h c \<noteq> None) ks"
    using nk by (intro filter_cong) auto
  have ih: "writes_of WS (snd (range_wsClients msg wr ks (h\<lparr>wsClients := (wsClients h)(k := None)\<rparr>)))
       = map (\<lambda>c. (c, msg, wr c msg)) (filter (\<lambda>c. wsClients h c \<noteq> None) ks)"
    unfolding Cons.IH [OF d] using f by simp
  show ?case
  proof (cases "wsClients h k")
    case None
    then show ?thesis by (simp add: Cons.IH [OF d])
  next
    case (Some b)
    then show ?thesis
      by (cases "wr k msg") (simp_all add: Cons.IH [OF d, of h] ih split_def Let_def)
  qed
qed

lemma range_ws_closes:
  "distinct ks \<Longrightarrow>
   closes_of WS (snd (range_wsClients msg wr ks h)) =
     filter (\<lambda>c. wsClients h c \<noteq> None \<and> wr c msg \<noteq> None) ks"
proof (induction ks arbitrary: h)
  case Nil
  show ?case by simp
next
  case (Cons k ks)
  then have d: "distinct ks" and nk: "k \<notin> set ks" by simp_all
  have f: "filter (\<lambda>c. ((wsClients h)(k := None)) c \<noteq> None \<and> wr c msg \<noteq> None) ks
         = filter (\<lambda>c. wsClients h c \<noteq> None \<and> wr c msg \<noteq> None) ks"
    using nk by (intro filter_cong) auto
  have ih: "closes_of WS (snd (range_wsClients msg wr ks (h\<lparr>wsClients := (wsClients h)(k := None)\<rparr>)))
       = filter (\<lambda>c. wsClients h c \<noteq> None \<and> wr c msg \<noteq> None) ks"
    unfolding Cons.IH [OF d] using f by simp
  show ?case
  proof (cases "wsClients h k")
    case None
    then show ?thesis by (simp add: Cons.IH [OF d])
  next
    case (Some b)
    then show ?thesis
      by (cases "wr k msg") (simp_all add: Cons.IH [OF d, of h] ih split_def Let_def)
  qed
qed

lemma range_ws_writes_registered:
  "fst ` set (writes_of WS (snd (range_wsClients msg wr ks h))) \<subseteq> dom (wsClients h)"
proof (induction ks arbitrary: h)
  case Nil
  show ?case by simp
next
  case (Cons k ks)
  have a: "fst ` set (writes_of WS (snd (range_wsClients msg wr ks h))) \<subseteq> dom (wsClients h)"
    by (rule Cons.IH)
  have "fst ` set (writes_of WS (snd (range_wsClients msg wr ks (h\<lparr>wsClients := (wsClients h)(k := None)\<rparr>))))
           \<subseteq> dom (wsClients (h\<lparr>wsClients := (wsClients h)(k := None)\<rparr>))"
    by (rule Cons.IH)
  then have b: "fst ` set (writes_of WS (snd (range_wsClients msg wr ks (h\<lparr>wsClients := (wsClients h)(k := None)\<rparr>))))
           \<subseteq> dom (wsClients h)"
    by auto
  show ?case
    using a b by (auto simp: split_def Let_def split: option.split)
qed

lemma Broadcast_ws_facts:
  assumes "distinct ks" "set ks = dom (wsClients h)" "marshal s = Inr msg"
  shows "fst (BroadcastToWsClients marshal s wr ks h) = None"
    and "wsClients (fst (snd (BroadcastToWsClients marshal s wr ks h))) =
           wsClients h |` {c. wr c msg = None}"
    and "tcpClients (fst (snd (BroadcastToWsClients marshal s wr ks h))) = tcpClients h"
    and "writes_of WS (snd (snd (BroadcastToWsClients marshal s wr ks h))) =
           map (\<lambda>c. (c, msg, wr c msg)) ks"
    and "closes_of WS (snd (snd (BroadcastToWsClients marshal s wr ks h))) =
           filter (\<lambda>c. wr c msg \<noteq> None) ks"
proof -
  have p: "\<And>c. c \<in> set ks \<Longrightarrow> wsClients h c \<noteq> None"
    using assms(2) by auto
  have q: "\<And>c. c \<notin> set ks \<Longrightarrow> wsClients h c = None"
    using assms(2) by auto
  have u: "BroadcastToWsClients marshal s wr ks h =
             (None, fst (range_wsClients msg wr ks h),
              [Lock] @ snd (range_wsClients msg wr ks h) @ [Unlock])"
    by (simp add: BroadcastToWsClients_def assms(3) split_def Let_def)
  show "fst (BroadcastToWsClients marshal s wr ks h) = None"
    by (simp add: u)
  show "wsClients (fst (snd (BroadcastToWsClients marshal s wr ks h))) =
           wsClients h |` {c. wr c msg = None}"
    using p q by (auto simp: u range_ws_map restrict_map_def fun_eq_iff)
  show "tcpClients (fst (snd (BroadcastToWsClients marshal s wr ks h))) = tcpClients h"
    by (simp add: u range_ws_tcp_unchanged)
  have f1: "filter (\<lambda>c. wsClients h c \<noteq> None) ks = ks"
    using p by (simp add: filter_id_conv)
  show "writes_of WS (snd (snd (BroadcastToWsClients marshal s wr ks h))) =
           map (\<lambda>c. (c, msg, wr c msg)) ks"
    unfolding u
    by (simp add: writes_of_append range_ws_writes [OF assms(1)] f1 del: not_None_eq)
  have f2: "filter (\<lambda>c. wsClients h c \<noteq> None \<and> wr c msg \<noteq> None) ks
          = filter (\<lambda>c. wr c msg \<noteq> None) ks"
    using p by (intro filter_cong) auto
  show "closes_of WS (snd (snd (BroadcastToWsClients marshal s wr ks h))) =
           filter (\<lambda>c. wr c msg \<noteq> None) ks"
    unfolding u
    by (simp add: closes_of_append range_ws_closes [OF assms(1)] f2 del: not_None_eq)
qed

lemma Broadcast_ws_only_registered:
  "fst ` set (writes_of WS (snd (snd (BroadcastToWsClients marshal s wr ks h)))) \<subseteq> dom (wsClients h)"
  using range_ws_writes_registered [of _ wr ks h]
  by (simp add: BroadcastToWsClients_def split_def Let_def writes_of_append split: sum.split)

text \<open>
  Claim C6. A broadcast pass visits the registered clients of a transport in some order
  \<open>ks\<close>. Every one of them is written to exactly once, with the same message, whether or
  not an earlier write failed. The clients whose write failed, and only they, are closed
  and deleted from the set; the others stay registered. A client whose write failed is
  not written to by the next broadcast pass, whatever status, write outcomes and order
  that pass has. This holds for the TCP clients and, when the status marshals, for the
  WebSocket clients.
\<close>

theorem broadcast_failure_isolated:
  assumes "distinct ks" and "set ks = dom (tcpClients h)"
    and "distinct js" and "set js = dom (wsClients h)" and "marshal s = Inr msg"
  shows "tcpClients (fst (BroadcastToTCPClients s wr ks h)) =
           tcpClients h |` {c. wr c (tcp_data s) = None} \<and>
         writes_of TCP (snd (BroadcastToTCPClients s wr ks h)) =
           map (\<lambda>c. (c, tcp_data s, wr c (tcp_data s))) ks \<and>
         closes_of TCP (snd (BroadcastToTCPClients s wr ks h)) =
           filter (\<lambda>c. wr c (tcp_data s) \<noteq> None) ks \<and>
         (\<forall>c s2 wr2 ks2. wr c (tcp_data s) \<noteq> None \<longrightarrow>
            c \<notin> fst ` set (writes_of TCP (snd (BroadcastToTCPClients s2 wr2 ks2
                                (fst (BroadcastToTCPClients s wr ks h)))))) \<and>
         fst (BroadcastToWsClients marshal s wr js h) = None \<and>
         wsClients (fst (snd (BroadcastToWsClients marshal s wr js h))) =
           wsClients h |` {c. wr c msg = None} \<and>
         writes_of WS (snd (snd (BroadcastToWsClients marshal s wr js h))) =
           map (\<lambda>c. (c, msg, wr c msg)) js \<and>
         closes_of WS (snd (snd (BroadcastToWsClients marshal s wr js h))) =
           filter (\<lambda>c. wr c msg \<noteq> None) js \<and>
         (\<forall>c s2 wr2 js2. wr c msg \<noteq> None \<longrightarrow>
            c \<notin> fst ` set (writes_of WS (snd (snd (BroadcastToWsClients marshal s2 wr2 js2
                                (fst (snd (BroadcastToWsClients marshal s wr js h))))))))"
proof -
  note t = Broadcast_tcp_facts [OF assms(1,2), of s wr]
  note w = Broadcast_ws_facts [of js h marshal s msg wr, OF assms(3,4,5)]
  have t4: "\<forall>c s2 wr2 ks2. wr c (tcp_data s) \<noteq> None \<longrightarrow>
            c \<notin> fst ` set (writes_of TCP (snd (BroadcastToTCPClients s2 wr2 ks2
                                (fst (BroadcastToTCPClients s wr ks h)))))"
  proof (intro allI impI)
    fix c s2 wr2 ks2
    assume "wr c (tcp_data s) \<noteq> None"
    then have "c \<notin> dom (tcpClients (fst (BroadcastToTCPClients s wr ks h)))"
      by (auto simp: t(1) restrict_map_def)
    then show "c \<notin> fst ` set (writes_of TCP (snd (BroadcastToTCPClients s2 wr2 ks2
                                (fst (BroadcastToTCPClients s wr ks h)))))"
      using Broadcast_tcp_only_registered [of s2 wr2 ks2 "fst (BroadcastToTCPClients s wr ks h)"]
      by blast
  qed
  have w4: "\<forall>c s2 wr2 js2. wr c msg \<noteq> None \<longrightarrow>
            c \<notin> fst ` set (writes_of WS (snd (snd (BroadcastToWsClients marshal s2 wr2 js2
                                (fst (snd (BroadcastToWsClients marshal s wr js h)))))))"
  proof (intro allI impI)
    fix c s2 wr2 js2
    assume "wr c msg \<noteq> None"
    then have "c \<notin> dom (wsClients (fst (snd (BroadcastToWsClients marshal s wr js h))))"
      by (auto simp: w(2) restrict_map_def)
    then show "c \<notin> fst ` set (writes_of WS (snd (snd (BroadcastToWsClients marshal s2 wr2 js2
                                (fst (snd (BroadcastToWsClients marshal s wr js h)))))))"
      using Broadcast_ws_only_registered [of marshal s2 wr2 js2
               "fst (snd (BroadcastToWsClients marshal s wr js h))"]
      by blast
  qed
  from t(1) t(3) t(4) t4 w(1) w(2) w(4) w(5) w4 show ?thesis by blast
qed

text \<open>
  Three TCP clients and two WebSocket clients; the writes to clients 2 and 5 fail. Client
  2 alone is closed, both WebSocket clients are written to, and the next TCP pass leaves
  client 2 out.
\<close>

theorem broadcast_failure_isolated_witness:
  "distinct [1, 2, 3 :: nat] \<and>
   set [1, 2, 3] = dom (tcpClients \<lparr>tcpClients = [1 \<mapsto> True, 2 \<mapsto> True, 3 \<mapsto> True],
         wsClients = [4 \<mapsto> True, 5 \<mapsto> True]\<rparr>) \<and>
   distinct [5, 4 :: nat] \<and>
   set [5, 4] = dom (wsClients \<lparr>tcpClients = [1 \<mapsto> True, 2 \<mapsto> True, 3 \<mapsto> True],
         wsClients = [4 \<mapsto> True, 5 \<mapsto> True]\<rparr>) \<and>
   closes_of TCP (snd (BroadcastToTCPClients
      \<lparr>status_Name = ''r'', status_Azimuth = 5, status_AzPreset = 5,
         status_AzimuthOverlap = False, status_Elevation = 120, status_ElPreset = 120\<rparr>
      (\<lambda>c d. if c = 2 \<or> c = 5 then Some ''broken pipe'' else None) [1, 2, 3]
      \<lparr>tcpClients = [1 \<mapsto> True, 2 \<mapsto> True, 3 \<mapsto> True],
         wsClients = [4 \<mapsto> True, 5 \<mapsto> True]\<rparr>)) = [2] \<and>
   map fst (writes_of WS (snd (snd (BroadcastToWsClients (\<lambda>s. Inr ''{}'')
      \<lparr>status_Name = ''r'', status_Azimuth = 5, status_AzPreset = 5,
         status_AzimuthOverlap = False, status_Elevation = 120, status_ElPreset = 120\<rparr>
      (\<lambda>c d. if c = 2 \<or> c = 5 then Some ''broken pipe'' else None) [5, 4]
      \<lparr>tcpClients = [1 \<mapsto> True, 2 \<mapsto> True, 3 \<mapsto> True],
         wsClients = [4 \<mapsto> True, 5 \<mapsto> True]\<rparr>)))) = [5, 4] \<and>
   2 \<notin> fst ` set (writes_of TCP (snd (BroadcastToTCPClients
      \<lparr>status_Name = ''r'', status_Azimuth = 5, status_AzPreset = 5,
         status_AzimuthOverlap = False, status_Elevation = 120, status_ElPreset = 120\<rparr>
      (\<lambda>c d. if c = 2 \<or> c = 5 then Some ''broken pipe'' else None) [3, 1]
      (fst (BroadcastToTCPClients
      \<lparr>status_Name = ''r'', status_Azimuth = 5, status_AzPreset = 5,
         status_AzimuthOverlap = False, status_Elevation = 120, status_ElPreset = 120\<rparr>
      (\<lambda>c d. if c = 2 \<or> c = 5 then Some ''broken pipe'' else None) [1, 2, 3]
      \<lparr>tcpClients = [1 \<mapsto> True, 2 \<mapsto> True, 3 \<mapsto> True],
         wsClients = [4 \<mapsto> True, 5 \<mapsto> True]\<rparr>)))))"
proof -
  have a: "distinct [1, 2, 3 :: nat]" by simp
  have b: "set [1, 2, 3 :: nat] = dom (tcpClients \<lparr>tcpClients = [1 \<mapsto> True, 2 \<mapsto> True, 3 \<mapsto> True],
         wsClients = [4 \<mapsto> True, 5 \<mapsto> True]\<rparr>)"
    by auto
  have c: "distinct [5, 4 :: nat]" by simp
  have d: "set [5, 4 :: nat] = dom (wsClients \<lparr>tcpClients = [1 \<mapsto> True, 2 \<mapsto> True, 3 \<mapsto> True],
         wsClients = [4 \<mapsto> True, 5 \<mapsto> True]\<rparr>)"
    by auto
  have e: "(\<lambda>s. Inr ''{}'') \<lparr>status_Name = ''r'', status_Azimuth = 5, status_AzPreset = 5,
         status_AzimuthOverlap = False, status_Elevation = 120, status_ElPreset = 120\<rparr> = (Inr ''{}'' :: error + string)"
    by simp
  note pass = broadcast_failure_isolated [of "[1, 2, 3]"
        "\<lparr>tcpClients = [1 \<mapsto> True, 2 \<mapsto> True, 3 \<mapsto> True],
         wsClients = [4 \<mapsto> True, 5 \<mapsto> True]\<rparr>"
        "[5, 4]" "\<lambda>s. Inr ''{}''"
        "\<lparr>status_Name = ''r'', status_Azimuth = 5, status_AzPreset = 5,
         status_AzimuthOverlap = False, status_Elevation = 120, status_ElPreset = 120\<rparr>"
        "''{}''"
        "\<lambda>c d. if c = 2 \<or> c = 5 then Some ''broken pipe'' else None", OF a b c d e]
  from pass have closed: "closes_of TCP (snd (BroadcastToTCPClients
      \<lparr>status_Name = ''r'', status_Azimuth = 5, status_AzPreset = 5,
         status_AzimuthOverlap = False, status_Elevation = 120, status_ElPreset = 120\<rparr>
      (\<lambda>c d. if c = 2 \<or> c = 5 then Some ''broken pipe'' else None) [1, 2, 3]
      \<lparr>tcpClients = [1 \<mapsto> True, 2 \<mapsto> True, 3 \<mapsto> True],
         wsClients = [4 \<mapsto> True, 5 \<mapsto> True]\<rparr>)) = [2]"
    by simp
  from pass have written: "map fst (writes_of WS (snd (snd (BroadcastToWsClients (\<lambda>s. Inr ''{}'')
      \<lparr>status_Name = ''r'', status_Azimuth = 5, status_AzPreset = 5,
         status_AzimuthOverlap = False, status_Elevation = 120, status_ElPreset = 120\<rparr>
      (\<lambda>c d. if c = 2 \<or> c = 5 then Some ''broken pipe'' else None) [5, 4]
      \<lparr>tcpClients = [1 \<mapsto> True, 2 \<mapsto> True, 3 \<mapsto> True],
         wsClients = [4 \<mapsto> True, 5 \<mapsto> True]\<rparr>)))) = [5, 4]"
    by simp
  from pass have "\<forall>c s2 wr2 ks2.
      (\<lambda>c d. if c = 2 \<or> c = 5 then Some ''broken pipe'' else None) c (tcp_data \<lparr>status_Name = ''r'', status_Azimuth = 5, status_AzPreset = 5,
         status_AzimuthOverlap = False, status_Elevation = 120, status_ElPreset = 120\<rparr>) \<noteq> None \<longrightarrow>
      c \<notin> fst ` set (writes_of TCP (snd (BroadcastToTCPClients s2 wr2 ks2
      (fst (BroadcastToTCPClients
      \<lparr>status_Name = ''r'', status_Azimuth = 5, status_AzPreset = 5,
         status_AzimuthOverlap = False, status_Elevation = 120, status_ElPreset = 120\<rparr>
      (\<lambda>c d. if c = 2 \<or> c = 5 then Some ''broken pipe'' else None) [1, 2, 3]
      \<lparr>tcpClients = [1 \<mapsto> True, 2 \<mapsto> True, 3 \<mapsto> True],
         wsClients = [4 \<mapsto> True, 5 \<mapsto> True]\<rparr>)))))"
    by blast
  then have next_pass: "2 \<notin> fst ` set (writes_of TCP (snd (BroadcastToTCPClients
      \<lparr>status_Name = ''r'', status_Azimuth = 5, status_AzPreset = 5,
         status_AzimuthOverlap = False, status_Elevation = 120, status_ElPreset = 120\<rparr>
      (\<lambda>c d. if c = 2 \<or> c = 5 then Some ''broken pipe'' else None) [3, 1]
      (fst (BroadcastToTCPClients
      \<lparr>status_Name = ''r'', status_Azimuth = 5, status_AzPreset = 5,
         status_AzimuthOverlap = False, status_Elevation = 120, status_ElPreset = 120\<rparr>
      (\<lambda>c d. if c = 2 \<or> c = 5 then Some ''broken pipe'' else None) [1, 2, 3]
      \<lparr>tcpClients = [1 \<mapsto> True, 2 \<mapsto> True, 3 \<mapsto> True],
         wsClients = [4 \<mapsto> True, 5 \<mapsto> True]\<rparr>)))))"
    by simp
  from a b c d closed written next_pass show ?thesis by blast
qed

lemma AddTCPClient_map:
  "tcpClients (fst (AddTCPClient c h)) = (tcpClients h)(c \<mapsto> True)"
  "wsClients (fst (AddTCPClient c h)) = wsClients h"
  by (simp_all add: AddTCPClient_def Let_def)

lemma AddWsClient_map:
  "wsClients (fst (AddWsClient c h)) = (wsClients h)(c \<mapsto> True)"
  "tcpClients (fst (AddWsClient c h)) = tcpClients h"
  by (simp_all add: AddWsClient_def Let_def)

lemma Add_dom:
  "dom (tcpClients (fst (AddTCPClient c h))) = insert c (dom (tcpClients h))"
  "dom (wsClients (fst (AddTCPClient c h))) = dom (wsClients h)"
  "dom (wsClients (fst (AddWsClient c h))) = insert c (dom (wsClients h))"
  "dom (tcpClients (fst (AddWsClient c h))) = dom (tcpClients h)"
  by (simp_all add: AddTCPClient_map AddWsClient_map)

lemma add_clients_tcp_dom:
  "dom (tcpClients (add_clients calls h)) = dom (tcpClients h) \<union> {c. Add_TCP c \<in> set calls}"
proof (induction calls arbitrary: h)
  case Nil
  show ?case by simp
next
  case (Cons a calls)
  show ?case
  proof (cases a)
    case (Add_TCP k)
    have "dom (tcpClients (add_clients (a # calls) h)) =
            dom (tcpClients h) \<union> insert k {c. Add_TCP c \<in> set calls}"
      by (simp add: Add_TCP Cons.IH Add_dom)
    also have "insert k {c. Add_TCP c \<in> set calls} = {c. Add_TCP c \<in> set (a # calls)}"
      by (auto simp: Add_TCP)
    finally show ?thesis .
  next
    case (Add_Ws k)
    then show ?thesis
      by (simp add: Cons.IH Add_dom)
  qed
qed

lemma add_clients_ws_dom:
  "dom (wsClients (add_clients calls h)) = dom (wsClients h) \<union> {c. Add_Ws c \<in> set calls}"
proof (induction calls arbitrary: h)
  case Nil
  show ?case by simp
next
  case (Cons a calls)
  show ?case
  proof (cases a)
    case (Add_Ws k)
    have "dom (wsClients (add_clients (a # calls) h)) =
            dom (wsClients h) \<union> insert k {c. Add_Ws c \<in> set calls}"
      by (simp add: Add_Ws Cons.IH Add_dom)
    also have "insert k {c. Add_Ws c \<in> set calls} = {c. Add_Ws c \<in> set (a # calls)}"
      by (auto simp: Add_Ws)
    finally show ?thesis .
  next
    case (Add_TCP k)
    then show ?thesis
      by (simp add: Cons.IH Add_dom)
  qed
qed

text \<open>
  Claim C7. After \<open>AddTCPClient\<close> or \<open>AddWsClient\<close> the client is a key of that
  transport's map, which holds exactly one entry for it. Adding a registered client again
  first deletes its entry and then inserts it, and leaves the Hub as it was after the
  first call. After any sequence of registrations the keys of each map are the keys it
  had before together with the clients added on that transport.
\<close>

theorem client_registered_once:
  "tcpClients (fst (AddTCPClient c h)) = (tcpClients h)(c \<mapsto> True) \<and>
   wsClients (fst (AddWsClient c h)) = (wsClients h)(c \<mapsto> True) \<and>
   fst (AddTCPClient c (fst (AddTCPClient c h))) = fst (AddTCPClient c h) \<and>
   snd (AddTCPClient c (fst (AddTCPClient c h))) =
     [Lock, Map_delete TCP c, Map_insert TCP c, Log (Connected TCP c), Go_listen TCP c, Unlock] \<and>
   fst (AddWsClient c (fst (AddWsClient c h))) = fst (AddWsClient c h) \<and>
   snd (AddWsClient c (fst (AddWsClient c h))) =
     [Map_delete WS c, Map_insert WS c, Log (Connected WS c), Go_listen WS c] \<and>
   card {k \<in> dom (tcpClients (fst (AddTCPClient c h))). k = c} = 1 \<and>
   card {k \<in> dom (wsClients (fst (AddWsClient c h))). k = c} = 1 \<and>
   dom (tcpClients (add_clients calls h)) = dom (tcpClients h) \<union> {k. Add_TCP k \<in> set calls} \<and>
   dom (wsClients (add_clients calls h)) = dom (wsClients h) \<union> {k. Add_Ws k \<in> set calls}"
proof -
  have 1: "fst (AddTCPClient c (fst (AddTCPClient c h))) = fst (AddTCPClient c h)"
    by (auto simp: AddTCPClient_def Let_def)
  have 2: "snd (AddTCPClient c (fst (AddTCPClient c h))) =
     [Lock, Map_delete TCP c, Map_insert TCP c, Log (Connected TCP c), Go_listen TCP c, Unlock]"
    by (auto simp: AddTCPClient_def Let_def)
  have 3: "fst (AddWsClient c (fst (AddWsClient c h))) = fst (AddWsClient c h)"
    by (auto simp: AddWsClient_def Let_def)
  have 4: "snd (AddWsClient c (fst (AddWsClient c h))) =
     [Map_delete WS c, Map_insert WS c, Log (Connected WS c), Go_listen WS c]"
    by (auto simp: AddWsClient_def Let_def)
  have "{k \<in> dom (tcpClients (fst (AddTCPClient c h))). k = c} = {c}"
    by (auto simp: AddTCPClient_map)
  then have 5: "card {k \<in> dom (tcpClients (fst (AddTCPClient c h))). k = c} = 1"
    by simp
  have "{k \<in> dom (wsClients (fst (AddWsClient c h))). k = c} = {c}"
    by (auto simp: AddWsClient_map)
  then have 6: "card {k \<in> dom (wsClients (fst (AddWsClient c h))). k = c} = 1"
    by simp
  from 1 2 3 4 5 6 AddTCPClient_map(1) AddWsClient_map(1) add_clients_tcp_dom [of calls h]
    add_clients_ws_dom [of calls h]
  show ?thesis by blast
qed

text \<open>
  Claim C8, evaluated on the code. When \<open>net.Listen\<close> fails, \<open>ListenTCP\<close> logs the error
  and closes the error channel once, with no retry, but it does not return: it goes on to
  use the nil listener and ends in a run-time panic.
\<close>

theorem ListenTCP_failed_listener_panics:
  "ListenTCP hst prt (\<lambda>a. Inl err) accepts h =
     (h, [Log (Listener_error err), Chan_close],
      Panicked ''runtime error: invalid memory address or nil pointer dereference'')"
  by (simp add: ListenTCP_def)

text \<open>\<open>ListenWS\<close> returns after logging the error of a failed listener.\<close>

lemma ListenWS_failed_listener_returns:
  "ListenWS hst prt (\<lambda>a. Some (Some err)) =
     ([Log (Listening WS (hst @ '':'' @ fmt_d prt)), Log (Serve_error err), Chan_close], Returned)"
  by (simp add: ListenWS_def)

end
